theory Spec2Isabelle
  imports Main "HOL-Library.Multiset"
begin

section \<open>Strings of the JavaScript runtime\<close>

text \<open>
  A JavaScript string is a sequence of UTF-16 code units. A code unit is modelled as a
  natural number and a string as a list of them, so that the Korean header, the
  placeholder name, the byte-order mark and the Unicode white space of the regular
  expressions are the values the program works on. \<open>str\<close> turns an ASCII literal into
  such a string.

  A JavaScript number is a double. The three numeric fields are modelled as mathematical
  integers, and the model is the program on the safe integers only (\<open>safeInteger\<close>
  below, magnitude at most \<open>2^53 - 1\<close>): a double holds such an integer exactly,
  \<open>parseInt\<close> reads its digits without rounding and \<open>toString\<close> prints it in plain
  decimal notation. Outside this range the program rounds (a token of some 310 digits is
  read as \<open>Infinity\<close>) and prints in another form (\<open>1e+21\<close>); every statement below
  about the value of a number is made for safe integers.
\<close>

type_synonym jschar = nat
type_synonym jsstring = "nat list"

definition str :: "string \<Rightarrow> jsstring" where
  "str s = map of_char s"

definition dquote :: jschar where "dquote = 34"
definition comma :: jschar where "comma = 44"
definition minus_sign :: jschar where "minus_sign = 45"
definition plus_sign :: jschar where "plus_sign = 43"
definition LF :: jschar where "LF = 10"
definition CR :: jschar where "CR = 13"
definition BOM :: jschar where "BOM = 65279"

text \<open>ECMAScript \<open>LineTerminator\<close>: LF, CR, U+2028, U+2029. The pattern \<open>.\<close> matches
  every code unit but these.\<close>

definition isLineTerminator :: "jschar \<Rightarrow> bool" where
  "isLineTerminator c = (c = 10 \<or> c = 13 \<or> c = 8232 \<or> c = 8233)"

text \<open>ECMAScript \<open>WhiteSpace\<close>: TAB, VT, FF, SP, NBSP, U+FEFF and the category Zs
  (U+1680, U+2000 to U+200A, U+202F, U+205F, U+3000).\<close>

definition isWhiteSpace :: "jschar \<Rightarrow> bool" where
  "isWhiteSpace c = (c = 9 \<or> c = 11 \<or> c = 12 \<or> c = 32 \<or> c = 160 \<or> c = 5760
     \<or> (8192 \<le> c \<and> c \<le> 8202) \<or> c = 8239 \<or> c = 8287 \<or> c = 12288 \<or> c = 65279)"

text \<open>The class \<open>\s\<close> of a regular expression, also what \<open>trim\<close> and \<open>parseInt\<close> strip.\<close>

definition isSpace :: "jschar \<Rightarrow> bool" where
  "isSpace c = (isWhiteSpace c \<or> isLineTerminator c)"

text \<open>\<open>String.prototype.trim\<close>.\<close>

definition trim :: "jsstring \<Rightarrow> jsstring" where
  "trim s = rev (dropWhile isSpace (rev (dropWhile isSpace s)))"

text \<open>\<open>String.prototype.toUpperCase\<close> on the letters a to z; every other code unit is
  left as it is. (The Unicode table maps no code point other than a, b, c to A, B, C.)\<close>

definition upperChar :: "jschar \<Rightarrow> jschar" where
  "upperChar c = (if 97 \<le> c \<and> c \<le> 122 then c - 32 else c)"

definition toUpperCase :: "jsstring \<Rightarrow> jsstring" where
  "toUpperCase s = map upperChar s"

text \<open>\<open>xs.join(sep)\<close> on an array of strings.\<close>

fun join :: "jsstring \<Rightarrow> jsstring list \<Rightarrow> jsstring" where
  "join sep [] = []"
| "join sep [x] = x"
| "join sep (x # y # ys) = x @ sep @ join sep (y # ys)"

text \<open>\<open>line.split(',')\<close>: never empty, the empty line gives one empty field.\<close>

fun splitComma :: "jsstring \<Rightarrow> jsstring list" where
  "splitComma [] = [[]]"
| "splitComma (c # cs) =
     (if c = comma then [] # splitComma cs
      else (case splitComma cs of [] \<Rightarrow> [[c]] | f # fs \<Rightarrow> (c # f) # fs))"

text \<open>\<open>text.split(/\r?\n/)\<close>: a separator is LF, or CR directly followed by LF.\<close>

fun splitLines :: "jsstring \<Rightarrow> jsstring list" where
  "splitLines [] = [[]]"
| "splitLines (c # cs) =
     (if c = LF then [] # splitLines cs
      else if c = CR \<and> (case cs of d # _ \<Rightarrow> d = LF | [] \<Rightarrow> False) then [] # splitLines (tl cs)
      else (case splitLines cs of [] \<Rightarrow> [[c]] | l # ls \<Rightarrow> (c # l) # ls))"

text \<open>\<open>parts[i]\<close> on an array: \<open>undefined\<close> (here \<open>None\<close>) out of range.\<close>

fun nth_opt :: "'a list \<Rightarrow> nat \<Rightarrow> 'a option" where
  "nth_opt [] i = None"
| "nth_opt (x # xs) 0 = Some x"
| "nth_opt (x # xs) (Suc i) = nth_opt xs i"

section \<open>The tokenizer: \<open>line.match(/(".*?"|[^",\s]+)(?=\s*,|\s*$)/g) || line.split(',')\<close>\<close>

text \<open>The lookahead \<open>(?=\s*,|\s*$)\<close> seen from the text that follows the match. \<open>\s*\<close> is
  greedy, and giving characters back leaves a white-space character in front, which is
  neither a comma nor the end: the lookahead holds exactly when the text after the
  longest run of white space is empty or starts with a comma.\<close>

definition lookahead :: "jsstring \<Rightarrow> bool" where
  "lookahead rest = (case dropWhile isSpace rest of [] \<Rightarrow> True | c # _ \<Rightarrow> c = comma)"

text \<open>The first alternative \<open>".*?"\<close> after its opening quote. \<open>.*?\<close> is lazy: at each
  position the closing quote is tried first (it must be followed by the lookahead), and
  only then one more code unit, not a line terminator, is taken by the dot. The result is
  the matched text after the opening quote.\<close>

fun lazyQuoted :: "jsstring \<Rightarrow> jsstring option" where
  "lazyQuoted [] = None"
| "lazyQuoted (c # cs) =
     (if c = dquote \<and> lookahead cs then Some [c]
      else if isLineTerminator c then None
      else (case lazyQuoted cs of None \<Rightarrow> None | Some m \<Rightarrow> Some (c # m)))"

text \<open>The class \<open>[^",\s]\<close>.\<close>

definition plainChar :: "jschar \<Rightarrow> bool" where
  "plainChar c = (c \<noteq> dquote \<and> c \<noteq> comma \<and> \<not> isSpace c)"

text \<open>The second alternative \<open>[^",\s]+\<close>: greedy, so the longest run is tried first and
  then each shorter one down to one code unit, until the lookahead holds.\<close>

fun backtrack :: "nat \<Rightarrow> jsstring \<Rightarrow> jsstring option" where
  "backtrack 0 s = None"
| "backtrack (Suc n) s =
     (if lookahead (drop (Suc n) s) then Some (take (Suc n) s) else backtrack n s)"

definition plainRun :: "jsstring \<Rightarrow> jsstring option" where
  "plainRun s = backtrack (length (takeWhile plainChar s)) s"

text \<open>One attempt of the whole pattern at the start of \<open>s\<close>: the alternatives in order.\<close>

definition matchAt :: "jsstring \<Rightarrow> jsstring option" where
  "matchAt s =
     (case (case s of [] \<Rightarrow> None
            | c # cs \<Rightarrow> (if c = dquote
                        then (case lazyQuoted cs of None \<Rightarrow> None | Some m \<Rightarrow> Some (c # m))
                        else None)) of
        Some m \<Rightarrow> Some m
      | None \<Rightarrow> plainRun s)"

text \<open>The flag \<open>g\<close>: the matches from left to right, each search starting where the last
  match ended, and one code unit further after a failed attempt. \<open>skip\<close> counts the code
  units of the last match that are still to be passed. (A match is never empty.)\<close>

fun scanFrom :: "nat \<Rightarrow> jsstring \<Rightarrow> jsstring list" where
  "scanFrom skip [] = []"
| "scanFrom (Suc skip) (c # cs) = scanFrom skip cs"
| "scanFrom 0 (c # cs) =
     (case matchAt (c # cs) of
        None \<Rightarrow> scanFrom 0 cs
      | Some m \<Rightarrow> m # scanFrom (length m - 1) cs)"

definition matchAll :: "jsstring \<Rightarrow> jsstring list" where
  "matchAll line = scanFrom 0 line"

text \<open>\<open>match\<close> gives \<open>null\<close> when there is no match at all, and only then \<open>||\<close> takes the
  plain split.\<close>

definition tokenize :: "jsstring \<Rightarrow> jsstring list" where
  "tokenize line = (if matchAll line = [] then splitComma line else matchAll line)"

section \<open>Cleaning and normalising a token\<close>

text \<open>\<open>.replace(/^"|"$/g, '')\<close>: a quote at the start is removed, and a quote at the end.\<close>

definition stripQuotes :: "jsstring \<Rightarrow> jsstring" where
  "stripQuotes s =
     (let s1 = (case s of [] \<Rightarrow> [] | c # cs \<Rightarrow> if c = dquote then cs else s)
      in if s1 \<noteq> [] \<and> last s1 = dquote then butlast s1 else s1)"

text \<open>\<open>.replace(/""/g, '"')\<close>: pairs of quotes from the left, without overlap.\<close>

fun collapseQuotes :: "jsstring \<Rightarrow> jsstring" where
  "collapseQuotes (a # b # cs) =
     (if a = dquote \<and> b = dquote then dquote # collapseQuotes cs
      else a # collapseQuotes (b # cs))"
| "collapseQuotes cs = cs"

text \<open>\<open>clean\<close>; \<open>val || ""\<close> turns \<open>undefined\<close> into the empty string.\<close>

definition clean :: "jsstring option \<Rightarrow> jsstring" where
  "clean val = trim (collapseQuotes (stripQuotes (case val of None \<Rightarrow> [] | Some v \<Rightarrow> v)))"

text \<open>The value of a digit in radix \<open>R\<close>, if it is one.\<close>

definition digitVal :: "nat \<Rightarrow> jschar \<Rightarrow> nat option" where
  "digitVal R c =
     (let v = (if 48 \<le> c \<and> c \<le> 57 then Some (c - 48)
               else if 97 \<le> c \<and> c \<le> 122 then Some (c - 87)
               else if 65 \<le> c \<and> c \<le> 90 then Some (c - 55)
               else None)
      in case v of None \<Rightarrow> None | Some d \<Rightarrow> if d < R then Some d else None)"

text \<open>\<open>Number.isSafeInteger\<close> on an integer.\<close>

definition safeInteger :: "int \<Rightarrow> bool" where
  "safeInteger n = (- 9007199254740991 \<le> n \<and> n \<le> 9007199254740991)"

text \<open>\<open>parseInt(s)\<close> with no radix: leading white space, a sign, the prefix \<open>0x\<close> or
  \<open>0X\<close> for radix 16, then the longest run of digits. \<open>None\<close> is \<open>NaN\<close>. The value
  is the integer that the digits denote, with the sign (the \<open>mathInt\<close> of the language
  definition). It is the number that \<open>parseInt\<close> returns when it is a safe integer;
  beyond that the program has the double nearest to it, or \<open>Infinity\<close>, and the model
  does not.\<close>

definition parseInt :: "jsstring \<Rightarrow> int option" where
  "parseInt inputString =
     (let S = dropWhile isSpace inputString;
          sign = (case S of [] \<Rightarrow> 1 | c # _ \<Rightarrow> if c = minus_sign then - 1 else (1::int));
          S1 = (case S of [] \<Rightarrow> [] | c # cs \<Rightarrow> if c = plus_sign \<or> c = minus_sign then cs else S);
          hex = (case S1 of a # b # _ \<Rightarrow> a = 48 \<and> (b = 120 \<or> b = 88) | _ \<Rightarrow> False);
          R = (if hex then 16 else 10);
          S2 = (if hex then drop 2 S1 else S1);
          Z = takeWhile (\<lambda>c. digitVal R c \<noteq> None) S2
      in if Z = [] then None
         else Some (sign * int (foldl (\<lambda>acc c. acc * R + the (digitVal R c)) 0 Z)))"

text \<open>\<open>parseInt(...) || 1\<close>: \<open>NaN\<close> and zero are falsy.\<close>

definition orOne :: "int option \<Rightarrow> int" where
  "orOne v = (case v of None \<Rightarrow> 1 | Some n \<Rightarrow> if n = 0 then 1 else n)"

text \<open>\<open>s || d\<close> on strings: the empty string is falsy.\<close>

definition orElse :: "jsstring \<Rightarrow> jsstring \<Rightarrow> jsstring" where
  "orElse s d = (if s = [] then d else s)"

section \<open>Records\<close>

datatype ClassGroup = A | B | C

definition groupString :: "ClassGroup \<Rightarrow> jsstring" where
  "groupString g = (case g of A \<Rightarrow> [65] | B \<Rightarrow> [66] | C \<Rightarrow> [67])"

record StudentInput =
  grade :: int
  schoolClass :: int
  number :: int
  group :: ClassGroup
  name :: jsstring
  phone :: jsstring
  remarks :: jsstring

record Student = StudentInput +
  id_ :: jsstring
  createdAt :: int

section \<open>Import\<close>

text \<open>\<open>['A', 'B', 'C'].includes(groupRaw) ? groupRaw : 'A'\<close>, as a string.\<close>

definition groupOrA :: "jsstring \<Rightarrow> jsstring" where
  "groupOrA groupRaw = (if groupRaw \<in> set [[65], [66], [67]] then groupRaw else [65])"

text \<open>\<open>as ClassGroup\<close>: the string read at its type; no value where the string is none of
  the three.\<close>

definition asClassGroup :: "jsstring \<Rightarrow> ClassGroup option" where
  "asClassGroup s = (if s = [65] then Some A else if s = [66] then Some B
                     else if s = [67] then Some C else None)"

text \<open>The placeholder name: the code units U+C774, U+B984, U+C5C6, U+C74C.\<close>

definition placeholderName :: jsstring where
  "placeholderName = [51060, 47492, 50630, 51020]"

text \<open>The body of the loop over the data lines: \<open>None\<close> is \<open>continue\<close>, otherwise the
  seven fields of the record that is pushed.\<close>

definition importRow :: "jsstring \<Rightarrow> StudentInput option" where
  "importRow line =
     (let parts = tokenize line in
      if clean (nth_opt parts 4) = [] then None
      else
        let groupRaw = toUpperCase (clean (nth_opt parts 3)) in
        Some \<lparr> grade = orOne (parseInt (clean (nth_opt parts 0))),
               schoolClass = orOne (parseInt (clean (nth_opt parts 1))),
               number = orOne (parseInt (clean (nth_opt parts 2))),
               group = the (asClassGroup (groupOrA groupRaw)),
               name = orElse (clean (nth_opt parts 4)) placeholderName,
               phone = orElse (clean (nth_opt parts 5)) [],
               remarks = orElse (clean (nth_opt parts 6)) [] \<rparr>)"

text \<open>\<open>lines.slice(1).filter(line => line.trim() !== "")\<close>.\<close>

definition dataLines :: "jsstring \<Rightarrow> jsstring list" where
  "dataLines text = filter (\<lambda>line. trim line \<noteq> []) (drop 1 (splitLines text))"

text \<open>The fields of \<open>importedStudents\<close>, in the order they are pushed.\<close>

definition importedFields :: "jsstring \<Rightarrow> StudentInput list" where
  "importedFields text = List.map_filter importRow (dataLines text)"

text \<open>\<open>crypto.randomUUID()\<close> and \<open>Date.now()\<close> are the environment's: \<open>randomUUID k\<close> and
  \<open>dateNow k\<close> are what the \<open>k\<close>-th push of an import gets.\<close>

definition importedStudents ::
  "(nat \<Rightarrow> jsstring) \<Rightarrow> (nat \<Rightarrow> int) \<Rightarrow> jsstring \<Rightarrow> Student list" where
  "importedStudents randomUUID dateNow text =
     map (\<lambda>(k, s). StudentInput.extend s \<lparr> id_ = randomUUID k, createdAt = dateNow k \<rparr>)
         (enumerate 0 (importedFields text))"

section \<open>Export\<close>

text \<open>\<open>Number.prototype.toString\<close> on a safe integer: its decimal digits, with a minus
  sign below zero. (Larger numbers are printed from their shortest digits, from \<open>1e21\<close>
  on with an exponent; the model does not print them as the program does.)\<close>

fun digitsOf :: "nat \<Rightarrow> jsstring" where
  "digitsOf n = (if n < 10 then [48 + n] else digitsOf (n div 10) @ [48 + n mod 10])"

declare digitsOf.simps [simp del]

definition numberToString :: "int \<Rightarrow> jsstring" where
  "numberToString n = (if n < 0 then minus_sign # digitsOf (nat (- n)) else digitsOf (nat n))"

text \<open>\<open>.replace(/"/g, '""')\<close>.\<close>

definition escapeQuotes :: "jsstring \<Rightarrow> jsstring" where
  "escapeQuotes s = concat (map (\<lambda>c. if c = dquote then [dquote, dquote] else [c]) s)"

text \<open>The header cells, in Korean: grade, class, number, after-school group, name, phone,
  remarks.\<close>

definition headers :: "jsstring list" where
  "headers = [[54617, 45380], [48152], [48264, 54840], [48169, 44284, 54980, 44536, 47353],
              [51060, 47492], [51204, 54868, 48264, 54840], [48708, 44256]]"

text \<open>The cells of one row, as \<open>join\<close> sees them: numbers through \<open>toString\<close>, the group,
  name and phone as they are, the remarks between quotes with its quotes doubled.\<close>

definition exportCells :: "'a StudentInput_scheme \<Rightarrow> jsstring list" where
  "exportCells s =
     [numberToString (grade s), numberToString (schoolClass s), numberToString (number s),
      groupString (group s), name s, phone s,
      [dquote] @ escapeQuotes (orElse (remarks s) []) @ [dquote]]"

text \<open>\<open>e.join(',')\<close> on the cells of one record: its line in the exported text.\<close>

definition exportLine :: "'a StudentInput_scheme \<Rightarrow> jsstring" where
  "exportLine s = join [comma] (exportCells s)"

text \<open>\<open>localeCompare\<close> on the three group letters: negative, zero or positive as
  A, B, C are ordered.\<close>

definition groupRank :: "ClassGroup \<Rightarrow> int" where
  "groupRank g = (case g of A \<Rightarrow> 0 | B \<Rightarrow> 1 | C \<Rightarrow> 2)"

definition localeCompare :: "ClassGroup \<Rightarrow> ClassGroup \<Rightarrow> int" where
  "localeCompare a b = (if groupRank a < groupRank b then - 1
                        else if groupRank a = groupRank b then 0 else 1)"

text \<open>The comparison function given to \<open>sort\<close>.\<close>

definition compareStudents :: "'a StudentInput_scheme \<Rightarrow> 'a StudentInput_scheme \<Rightarrow> int" where
  "compareStudents a b =
     (if group a \<noteq> group b then localeCompare (group a) (group b)
      else if grade a \<noteq> grade b then grade a - grade b
      else if schoolClass a \<noteq> schoolClass b then schoolClass a - schoolClass b
      else number a - number b)"

text \<open>\<open>Array.prototype.sort\<close> with a comparison function. The language fixes the result
  for a consistent comparison function: ascending, and stable. Insertion from the right,
  in front of the first element that does not compare smaller, computes it.\<close>

fun insertBy :: "('a \<Rightarrow> 'a \<Rightarrow> int) \<Rightarrow> 'a \<Rightarrow> 'a list \<Rightarrow> 'a list" where
  "insertBy cmp x [] = [x]"
| "insertBy cmp x (y # ys) = (if cmp x y \<le> 0 then x # y # ys else y # insertBy cmp x ys)"

fun sortBy :: "('a \<Rightarrow> 'a \<Rightarrow> int) \<Rightarrow> 'a list \<Rightarrow> 'a list" where
  "sortBy cmp [] = []"
| "sortBy cmp (x # xs) = insertBy cmp x (sortBy cmp xs)"

text \<open>\<open>[headers.join(','), ...rows.map(e => e.join(','))].join('\n')\<close>.\<close>

definition csvContent :: "jsstring list list \<Rightarrow> jsstring" where
  "csvContent rows = join [LF] (join [comma] headers # map (join [comma]) rows)"

section \<open>The roster in the component's state\<close>

text \<open>
  The state variable \<open>students\<close> holds a reference to an array, and \<open>sort\<close> works in place
  on the array it is called on. The arrays live in a store, by reference; \<open>fresh\<close> is the
  next reference that is not in use.
\<close>

datatype ViewMode = AllGroups | Tab ClassGroup

record App =
  arrays :: "nat \<Rightarrow> Student list"
  fresh :: nat
  students :: nat
  activeTab :: ViewMode

text \<open>\<open>activeTab === 'ALL' ? students : students.filter(s => s.group === activeTab)\<close>:
  the very array of the state, or a new one.\<close>

definition filteredStudents :: "App \<Rightarrow> nat \<times> App" where
  "filteredStudents app =
     (case activeTab app of
        AllGroups \<Rightarrow> (students app, app)
      | Tab g \<Rightarrow>
          (fresh app,
           app \<lparr> arrays := (arrays app) (fresh app := filter (\<lambda>s. group s = g) (arrays app (students app))),
                 fresh := Suc (fresh app) \<rparr>))"

text \<open>What the list of the roster shows: the content of \<open>filteredStudents\<close>.\<close>

definition listStudents :: "App \<Rightarrow> Student list" where
  "listStudents app = (case filteredStudents app of (ref, app1) \<Rightarrow> arrays app1 ref)"

text \<open>\<open>exportToCsv\<close>: the state it leaves, and the text of the blob it offers for download
  (\<open>None\<close> when it only alerts that there is nothing to export).\<close>

definition exportToCsv :: "App \<Rightarrow> App \<times> jsstring option" where
  "exportToCsv app =
     (case filteredStudents app of (ref, app1) \<Rightarrow>
        if length (arrays app1 ref) = 0 then (app1, None)
        else
          let app2 = app1 \<lparr> arrays := (arrays app1) (ref := sortBy compareStudents (arrays app1 ref)) \<rparr>;
              rows = map exportCells (arrays app2 ref)
          in (app2, Some ([BOM] @ csvContent rows)))"

text \<open>The end of \<open>handleCsvImport\<close>: \<open>setStudents(prev => [...prev, ...importedStudents])\<close>
  puts a new array into the state when something was imported; the number is what the
  alert reports, \<open>None\<close> the alert that nothing could be read.\<close>

definition handleCsvImport ::
  "(nat \<Rightarrow> jsstring) \<Rightarrow> (nat \<Rightarrow> int) \<Rightarrow> jsstring \<Rightarrow> App \<Rightarrow> App \<times> nat option" where
  "handleCsvImport randomUUID dateNow text app =
     (let imported = importedStudents randomUUID dateNow text in
      if length imported > 0
      then (app \<lparr> arrays := (arrays app) (fresh app := arrays app (students app) @ imported),
                  students := fresh app, fresh := Suc (fresh app) \<rparr>,
            Some (length imported))
      else (app, None))"

section \<open>Properties that the claims speak of\<close>

text \<open>The order of the specification: group, then grade, then class, then number, each
  ascending; the group letters by their code unit.\<close>

definition chainLe :: "'a StudentInput_scheme \<Rightarrow> 'a StudentInput_scheme \<Rightarrow> bool" where
  "chainLe a b =
     (hd (groupString (group a)) < hd (groupString (group b)) \<or>
      (group a = group b \<and>
        (grade a < grade b \<or>
         (grade a = grade b \<and>
           (schoolClass a < schoolClass b \<or>
            (schoolClass a = schoolClass b \<and> number a \<le> number b))))))"

definition chainKey :: "'a StudentInput_scheme \<Rightarrow> ClassGroup \<times> int \<times> int \<times> int" where
  "chainKey s = (group s, grade s, schoolClass s, number s)"

text \<open>A field that the second alternative of the pattern reads back whole: not empty, and
  free of quotes, commas and white space.\<close>

definition plainToken :: "jsstring \<Rightarrow> bool" where
  "plainToken f = (f \<noteq> [] \<and> list_all plainChar f)"

text \<open>The text starts, after white space, with a comma.\<close>

definition commaNext :: "jsstring \<Rightarrow> bool" where
  "commaNext s = (case dropWhile isSpace s of [] \<Rightarrow> False | c # _ \<Rightarrow> c = comma)"

text \<open>Somewhere in the text a quote is followed, after white space, by a comma.\<close>

fun quoteThenComma :: "jsstring \<Rightarrow> bool" where
  "quoteThenComma [] = False"
| "quoteThenComma (c # cs) = ((c = dquote \<and> commaNext cs) \<or> quoteThenComma cs)"

text \<open>Remarks that the first alternative reads back whole from their quoted form.\<close>

definition quotableRemarks :: "jsstring \<Rightarrow> bool" where
  "quotableRemarks r = (\<not> list_ex isLineTerminator r \<and> \<not> quoteThenComma r)"

text \<open>A token that \<open>parseInt\<close> reads without rounding: no number at all, or a safe
  integer.\<close>

definition safeNumericToken :: "jsstring \<Rightarrow> bool" where
  "safeNumericToken t = (case parseInt t of None \<Rightarrow> True | Some n \<Rightarrow> safeInteger n)"

text \<open>A record that the exporter and the importer read the same way.\<close>

definition roundtripSafe :: "'a StudentInput_scheme \<Rightarrow> bool" where
  "roundtripSafe s =
     (grade s \<noteq> 0 \<and> schoolClass s \<noteq> 0 \<and> number s \<noteq> 0 \<and>
      safeInteger (grade s) \<and> safeInteger (schoolClass s) \<and> safeInteger (number s) \<and>
      plainToken (name s) \<and> plainToken (phone s) \<and>
      quotableRemarks (remarks s) \<and> trim (remarks s) = remarks s)"

text \<open>A field as the claim about quoting describes it: between quotes, with its quotes
  doubled, when it contains a comma, a newline or a quote.\<close>

definition rfc4180Field :: "jsstring \<Rightarrow> jsstring" where
  "rfc4180Field f =
     (if comma \<in> set f \<or> LF \<in> set f \<or> dquote \<in> set f
      then [dquote] @ escapeQuotes f @ [dquote] else f)"

section \<open>Example inputs\<close>

definition exampleLine :: jsstring where
  "exampleLine = str ''1,2,3,a,Kim,010-1111,Good''"

definition exampleText :: jsstring where
  "exampleText = join [comma] headers @ [LF] @ exampleLine @ [LF] @ str '',,,,,,''"

definition exampleKim :: StudentInput where
  "exampleKim = \<lparr> grade = 1, schoolClass = 2, number = 3, group = A, name = str ''Kim'',
                   phone = str ''010-1111'', remarks = str ''Good'' \<rparr>"


definition negativeLine :: jsstring where
  "negativeLine = str ''-5,0,x,b,Kim,010,ok''"

definition negativeRecord :: StudentInput where
  "negativeRecord = \<lparr> grade = - 5, schoolClass = 1, number = 1, group = B, name = str ''Kim'',
                         phone = str ''010'', remarks = str ''ok'' \<rparr>"

definition studentB :: Student where
  "studentB = \<lparr> grade = 1, schoolClass = 1, number = 1, group = B, name = str ''Bae'',
                 phone = str ''010'', remarks = [], id_ = str ''s1'', createdAt = 1 \<rparr>"

definition studentA :: Student where
  "studentA = \<lparr> grade = 1, schoolClass = 1, number = 1, group = A, name = str ''An'',
                 phone = str ''011'', remarks = [], id_ = str ''s2'', createdAt = 2 \<rparr>"

definition rosterApp :: App where
  "rosterApp = \<lparr> arrays = (\<lambda>a. []) (0 := [studentB, studentA]), fresh = 1, students = 0,
                  activeTab = AllGroups \<rparr>"

definition studentComma :: Student where
  "studentComma = \<lparr> grade = 1, schoolClass = 1, number = 1, group = A, name = str ''Kim,Lee'',
                     phone = str ''010'', remarks = [], id_ = str ''s3'', createdAt = 3 \<rparr>"

definition commaApp :: App where
  "commaApp = \<lparr> arrays = (\<lambda>a. []) (0 := [studentComma]), fresh = 1, students = 0,
                 activeTab = AllGroups \<rparr>"

definition commaReimported :: StudentInput where
  "commaReimported = \<lparr> grade = 1, schoolClass = 1, number = 1, group = A, name = str ''Kim'',
                        phone = str ''Lee'', remarks = str ''010'' \<rparr>"

definition studentHi :: Student where
  "studentHi = \<lparr> grade = 1, schoolClass = 2, number = 3, group = C, name = str ''Kim'',
                  phone = str ''010-1111'', remarks = str ''He said, \"hi\"'',
                  id_ = str ''s4'', createdAt = 4 \<rparr>"

definition hiApp :: App where
  "hiApp = \<lparr> arrays = (\<lambda>a. []) (0 := [studentHi]), fresh = 1, students = 0,
              activeTab = AllGroups \<rparr>"

definition hiLine :: jsstring where
  "hiLine = str ''1,2,3,C,Kim,010-1111,\"He said, \"\"hi\"\"\"''"

definition namelessLine :: jsstring where
  "namelessLine = str ''1,2,3,A,,010,memo''"

definition namelessText :: jsstring where
  "namelessText = join [comma] headers @ [LF] @ namelessLine"

definition namelessRecord :: StudentInput where
  "namelessRecord = \<lparr> grade = 1, schoolClass = 2, number = 3, group = A, name = str ''010'',
                         phone = str ''memo'', remarks = [] \<rparr>"

definition emptyApp :: App where
  "emptyApp = \<lparr> arrays = (\<lambda>a. []), fresh = 1, students = 0, activeTab = AllGroups \<rparr>"

definition emptyPhoneLine :: jsstring where
  "emptyPhoneLine = str ''1,2,3,A,Kim,,memo''"

definition commaLine :: jsstring where
  "commaLine = str ''1,1,1,A,Kim,Lee,010,\"\"''"

section \<open>Evaluation and basic facts\<close>

lemmas chars = dquote_def comma_def minus_sign_def plus_sign_def LF_def CR_def BOM_def
  isSpace_def isWhiteSpace_def isLineTerminator_def plainChar_def

lemmas tokenizer = tokenize_def matchAll_def matchAt_def plainRun_def lookahead_def

lemmas cleaning = clean_def trim_def stripQuotes_def parseInt_def digitVal_def orOne_def
  orElse_def toUpperCase_def upperChar_def groupOrA_def asClassGroup_def

lemma nth_opt_numeral [simp]:
  "nth_opt (x # xs) (numeral n) = nth_opt xs (pred_numeral n)"
  by (simp add: numeral_eq_Suc)

lemma importRow_SomeD:
  "importRow line = Some r \<Longrightarrow>
     clean (nth_opt (tokenize line) 4) \<noteq> [] \<and>
     r = \<lparr> grade = orOne (parseInt (clean (nth_opt (tokenize line) 0))),
           schoolClass = orOne (parseInt (clean (nth_opt (tokenize line) 1))),
           number = orOne (parseInt (clean (nth_opt (tokenize line) 2))),
           group = the (asClassGroup (groupOrA (toUpperCase (clean (nth_opt (tokenize line) 3))))),
           name = orElse (clean (nth_opt (tokenize line) 4)) placeholderName,
           phone = orElse (clean (nth_opt (tokenize line) 5)) [],
           remarks = orElse (clean (nth_opt (tokenize line) 6)) [] \<rparr>"
  by (simp add: importRow_def Let_def split: if_splits)

lemma importedFields_rowD:
  "r \<in> set (importedFields text) \<Longrightarrow>
     \<exists>line. line \<in> set (dataLines text) \<and> importRow line = Some r"
  by (auto simp: importedFields_def List.map_filter_def)

lemma tokenize_exampleLine:
  "tokenize exampleLine = [[49], [50], [51], [97], [75, 105, 109], [48, 49, 48, 45, 49, 49, 49, 49], [71, 111, 111, 100]]"
  by (simp add: exampleLine_def str_def tokenizer chars)

lemma importRow_exampleLine: "importRow exampleLine = Some exampleKim"
  by (simp add: importRow_def Let_def tokenize_exampleLine exampleKim_def str_def cleaning chars)

lemma tokenize_commas: "tokenize [44, 44, 44, 44, 44, 44] = [[], [], [], [], [], [], []]"
  by (simp add: tokenizer chars)

lemma importRow_commas: "importRow [44, 44, 44, 44, 44, 44] = None"
  by (simp add: importRow_def Let_def tokenize_commas cleaning chars)

lemma dataLines_exampleText: "dataLines exampleText = [exampleLine, [44, 44, 44, 44, 44, 44]]"
  by (simp add: dataLines_def exampleText_def exampleLine_def headers_def str_def trim_def chars)

lemma importedFields_exampleText: "importedFields exampleText = [exampleKim]"
  by (simp add: importedFields_def dataLines_exampleText List.map_filter_def
      importRow_exampleLine importRow_commas)

lemma truncate_extend: "StudentInput.truncate (StudentInput.extend s m) = s"
  by (simp add: StudentInput.truncate_def StudentInput.extend_def)

lemma map_snd_enumerate: "map snd (enumerate n xs) = xs"
  by (induction xs arbitrary: n) simp_all

lemma importedStudents_fields:
  "map StudentInput.truncate (importedStudents randomUUID dateNow text) = importedFields text"
  by (simp add: importedStudents_def case_prod_unfold comp_def truncate_extend map_snd_enumerate)

lemma handleCsvImport_roster:
  "arrays (fst (handleCsvImport randomUUID dateNow text app))
          (students (fst (handleCsvImport randomUUID dateNow text app)))
   = arrays app (students app) @ importedStudents randomUUID dateNow text"
  by (simp add: handleCsvImport_def Let_def)

lemma map_filter_skip:
  "f x = None \<Longrightarrow> List.map_filter f (xs @ x # ys) = List.map_filter f (xs @ ys)"
  by (simp add: List.map_filter_def)





section \<open>Claims about import\<close>

text \<open>
  Claim C10. Every record that an import produces comes from a data line, and its name is
  exactly the cleaned fifth token of that line, which is not empty: the rows with an empty
  cleaned name token were skipped before, so \<open>|| placeholder\<close> never takes the
  placeholder.
\<close>

theorem imported_name_is_cleaned_token:
  "r \<in> set (importedFields text) \<Longrightarrow>
     \<exists>line. line \<in> set (dataLines text) \<and> importRow line = Some r \<and>
            name r = clean (nth_opt (tokenize line) 4) \<and> name r \<noteq> []"
proof -
  assume "r \<in> set (importedFields text)"
  then obtain line where l: "line \<in> set (dataLines text)" and r: "importRow line = Some r"
    using importedFields_rowD by blast
  from importRow_SomeD [OF r] have "clean (nth_opt (tokenize line) 4) \<noteq> []"
    and "name r = orElse (clean (nth_opt (tokenize line) 4)) placeholderName" by simp_all
  then have "name r = clean (nth_opt (tokenize line) 4) \<and> name r \<noteq> []"
    by (simp add: orElse_def)
  with l r show ?thesis by blast
qed

theorem imported_name_is_cleaned_token_witness:
  "exampleKim \<in> set (importedFields exampleText) \<and>
   (\<exists>line. line \<in> set (dataLines exampleText) \<and> importRow line = Some exampleKim \<and>
      name exampleKim = clean (nth_opt (tokenize line) 4) \<and> name exampleKim \<noteq> [])"
  using imported_name_is_cleaned_token [of exampleKim exampleText]
  by (simp add: importedFields_exampleText)

text \<open>The check at the head of the loop body: a data line whose fifth token is empty
  after cleaning produces nothing, and neither the imported fields nor the roster get
  anything from it.\<close>

lemma row_with_empty_fifth_token_is_skipped:
  assumes "dataLines text = before @ line # after"
    and "clean (nth_opt (tokenize line) 4) = []"
  shows "importRow line = None \<and>
         importedFields text = List.map_filter importRow (before @ after) \<and>
         map StudentInput.truncate
           (arrays (fst (handleCsvImport randomUUID dateNow text app))
                   (students (fst (handleCsvImport randomUUID dateNow text app))))
         = map StudentInput.truncate (arrays app (students app))
           @ List.map_filter importRow (before @ after)"
proof -
  have none: "importRow line = None"
    using assms(2) by (simp add: importRow_def Let_def)
  then have fields: "importedFields text = List.map_filter importRow (before @ after)"
    using assms(1) by (simp add: importedFields_def map_filter_skip)
  show ?thesis
    using none fields by (simp add: handleCsvImport_roster importedStudents_fields)
qed





text \<open>
  Claim C7. The group of every record that an import produces is one of A, B, C: the
  fourth token is cleaned and upper-cased, the result is kept when it is exactly
  \<open>A\<close>, \<open>B\<close> or \<open>C\<close> and replaced by \<open>A\<close> otherwise, and this string is the
  stored group.
\<close>

theorem imported_group_is_A_B_or_C:
  assumes "importRow line = Some r"
  shows "groupString (group r)
         = (if toUpperCase (clean (nth_opt (tokenize line) 3)) = str ''A''
             \<or> toUpperCase (clean (nth_opt (tokenize line) 3)) = str ''B''
             \<or> toUpperCase (clean (nth_opt (tokenize line) 3)) = str ''C''
            then toUpperCase (clean (nth_opt (tokenize line) 3)) else str ''A'') \<and>
         asClassGroup (groupOrA (toUpperCase (clean (nth_opt (tokenize line) 3)))) = Some (group r) \<and>
         groupString (group r) \<in> {str ''A'', str ''B'', str ''C''}"
proof -
  have g: "group r = the (asClassGroup (groupOrA (toUpperCase (clean (nth_opt (tokenize line) 3)))))"
    using importRow_SomeD [OF assms] by simp
  show ?thesis
    unfolding g by (simp add: groupOrA_def asClassGroup_def groupString_def str_def)
qed

theorem imported_group_is_A_B_or_C_witness:
  "importRow exampleLine = Some exampleKim \<and>
   toUpperCase (clean (nth_opt (tokenize exampleLine) 3)) = str ''A'' \<and>
   groupString (group exampleKim) = str ''A'' \<and>
   groupString (group exampleKim) \<in> {str ''A'', str ''B'', str ''C''}"
  using imported_group_is_A_B_or_C [OF importRow_exampleLine]
  by (simp add: importRow_exampleLine tokenize_exampleLine cleaning chars str_def
      exampleKim_def groupString_def)

lemma tokenize_negativeLine:
  "tokenize negativeLine = [[45, 53], [48], [120], [98], [75, 105, 109], [48, 49, 48], [111, 107]]"
  by (simp add: negativeLine_def str_def tokenizer chars)

lemma importRow_negativeLine: "importRow negativeLine = Some negativeRecord"
  by (simp add: importRow_def Let_def tokenize_negativeLine negativeRecord_def str_def cleaning chars)

text \<open>
  Claim C4, as stated, fails: the token \<open>-5\<close> is stored as the negative number it reads as.
\<close>

theorem negative_grade_is_stored:
  "importRow negativeLine = Some negativeRecord \<and> grade negativeRecord = - 5 \<and>
   \<not> 0 < grade negativeRecord"
  by (simp add: importRow_negativeLine) (simp add: negativeRecord_def)

text \<open>
  Claim C4, amended. Take a record that an import produces from a line whose grade, class
  and number tokens are read without rounding (each reads as no number, or as a safe
  integer). Its grade, class and number are safe integers, so finite, and other than zero: a
  token that \<open>parseInt\<close> cannot read (not numeric, or empty) and a token that reads as zero
  give 1, and every other token gives the integer it reads as, so the stored number is
  negative exactly when the token reads as a negative integer.
\<close>

theorem imported_numbers_are_nonzero:
  assumes "importRow line = Some r"
    and "safeNumericToken (clean (nth_opt (tokenize line) 0))"
    and "safeNumericToken (clean (nth_opt (tokenize line) 1))"
    and "safeNumericToken (clean (nth_opt (tokenize line) 2))"
  shows "grade r \<noteq> 0 \<and> schoolClass r \<noteq> 0 \<and> number r \<noteq> 0 \<and>
         safeInteger (grade r) \<and> safeInteger (schoolClass r) \<and> safeInteger (number r) \<and>
         grade r = (case parseInt (clean (nth_opt (tokenize line) 0)) of
                      None \<Rightarrow> 1 | Some n \<Rightarrow> if n = 0 then 1 else n) \<and>
         schoolClass r = (case parseInt (clean (nth_opt (tokenize line) 1)) of
                      None \<Rightarrow> 1 | Some n \<Rightarrow> if n = 0 then 1 else n) \<and>
         number r = (case parseInt (clean (nth_opt (tokenize line) 2)) of
                      None \<Rightarrow> 1 | Some n \<Rightarrow> if n = 0 then 1 else n) \<and>
         (grade r < 0) = (\<exists>n. parseInt (clean (nth_opt (tokenize line) 0)) = Some n \<and> n < 0) \<and>
         (schoolClass r < 0) = (\<exists>n. parseInt (clean (nth_opt (tokenize line) 1)) = Some n \<and> n < 0) \<and>
         (number r < 0) = (\<exists>n. parseInt (clean (nth_opt (tokenize line) 2)) = Some n \<and> n < 0)"
proof -
  have r: "grade r = orOne (parseInt (clean (nth_opt (tokenize line) 0)))"
      "schoolClass r = orOne (parseInt (clean (nth_opt (tokenize line) 1)))"
      "number r = orOne (parseInt (clean (nth_opt (tokenize line) 2)))"
    using importRow_SomeD [OF assms(1)] by simp_all
  have o: "\<And>v. orOne v \<noteq> 0 \<and> orOne v = (case v of None \<Rightarrow> 1 | Some n \<Rightarrow> if n = 0 then 1 else n)
                 \<and> (orOne v < 0) = (\<exists>n. v = Some n \<and> n < 0)"
    by (auto simp: orOne_def split: option.splits)
  have f: "\<And>t. safeNumericToken t \<Longrightarrow> safeInteger (orOne (parseInt t))"
    by (auto simp: safeNumericToken_def orOne_def safeInteger_def split: option.splits)
  have "safeInteger (grade r) \<and> safeInteger (schoolClass r) \<and> safeInteger (number r)"
    unfolding r using assms(2-4) f by blast
  moreover have "grade r \<noteq> 0 \<and> schoolClass r \<noteq> 0 \<and> number r \<noteq> 0"
    unfolding r using o by blast
  moreover have "grade r = (case parseInt (clean (nth_opt (tokenize line) 0)) of
                      None \<Rightarrow> 1 | Some n \<Rightarrow> if n = 0 then 1 else n) \<and>
         schoolClass r = (case parseInt (clean (nth_opt (tokenize line) 1)) of
                      None \<Rightarrow> 1 | Some n \<Rightarrow> if n = 0 then 1 else n) \<and>
         number r = (case parseInt (clean (nth_opt (tokenize line) 2)) of
                      None \<Rightarrow> 1 | Some n \<Rightarrow> if n = 0 then 1 else n)"
    unfolding r using o by blast
  moreover have "(grade r < 0) = (\<exists>n. parseInt (clean (nth_opt (tokenize line) 0)) = Some n \<and> n < 0) \<and>
         (schoolClass r < 0) = (\<exists>n. parseInt (clean (nth_opt (tokenize line) 1)) = Some n \<and> n < 0) \<and>
         (number r < 0) = (\<exists>n. parseInt (clean (nth_opt (tokenize line) 2)) = Some n \<and> n < 0)"
    unfolding r using o by blast
  ultimately show ?thesis by blast
qed

lemma negativeLine_tokens:
  "parseInt (clean (nth_opt (tokenize negativeLine) 0)) = Some (- 5) \<and>
   parseInt (clean (nth_opt (tokenize negativeLine) 1)) = Some 0 \<and>
   parseInt (clean (nth_opt (tokenize negativeLine) 2)) = None"
  by (simp add: tokenize_negativeLine cleaning chars)

theorem imported_numbers_are_nonzero_witness:
  "importRow negativeLine = Some negativeRecord \<and>
   safeNumericToken (clean (nth_opt (tokenize negativeLine) 0)) \<and>
   safeNumericToken (clean (nth_opt (tokenize negativeLine) 1)) \<and>
   safeNumericToken (clean (nth_opt (tokenize negativeLine) 2)) \<and>
   parseInt (clean (nth_opt (tokenize negativeLine) 0)) = Some (- 5) \<and>
   parseInt (clean (nth_opt (tokenize negativeLine) 1)) = Some 0 \<and>
   parseInt (clean (nth_opt (tokenize negativeLine) 2)) = None \<and>
   grade negativeRecord = - 5 \<and> schoolClass negativeRecord = 1 \<and> number negativeRecord = 1 \<and>
   grade negativeRecord \<noteq> 0 \<and> grade negativeRecord < 0 \<and> safeInteger (grade negativeRecord)"
proof -
  have s0: "safeNumericToken (clean (nth_opt (tokenize negativeLine) 0))"
    and s1: "safeNumericToken (clean (nth_opt (tokenize negativeLine) 1))"
    and s2: "safeNumericToken (clean (nth_opt (tokenize negativeLine) 2))"
    using negativeLine_tokens by (simp_all add: safeNumericToken_def safeInteger_def)
  show ?thesis
    using imported_numbers_are_nonzero [OF importRow_negativeLine s0 s1 s2] s0 s1 s2
      negativeLine_tokens
    by (simp add: importRow_negativeLine safeInteger_def)
qed

text \<open>
  Claim C8 fails on the code. The line \<open>1,2,3,A,,010,memo\<close> has an empty name column (its
  fifth comma-separated field). The pattern gives no token for the empty field, so the
  fifth token is the phone \<open>010\<close>, the check for an empty name does not fire, and a record
  with the name \<open>010\<close> is imported and appended to the roster.
\<close>

theorem empty_name_column_is_imported:
  "splitComma namelessLine
     = [str ''1'', str ''2'', str ''3'', str ''A'', [], str ''010'', str ''memo''] \<and>
   tokenize namelessLine = [str ''1'', str ''2'', str ''3'', str ''A'', str ''010'', str ''memo''] \<and>
   importRow namelessLine = Some namelessRecord \<and>
   name namelessRecord = str ''010'' \<and>
   importedFields namelessText = [namelessRecord] \<and>
   map StudentInput.truncate
     (arrays (fst (handleCsvImport (\<lambda>k. []) (\<lambda>k. 0) namelessText emptyApp))
             (students (fst (handleCsvImport (\<lambda>k. []) (\<lambda>k. 0) namelessText emptyApp))))
   = [namelessRecord]"
proof -
  have t: "tokenize namelessLine = [[49], [50], [51], [65], [48, 49, 48], [109, 101, 109, 111]]"
    by (simp add: namelessLine_def str_def tokenizer chars)
  have s: "splitComma namelessLine = [[49], [50], [51], [65], [], [48, 49, 48], [109, 101, 109, 111]]"
    by (simp add: namelessLine_def str_def chars)
  have i: "importRow namelessLine = Some namelessRecord"
    by (simp add: importRow_def Let_def t namelessRecord_def str_def cleaning chars)
  have "dataLines namelessText = [namelessLine]"
    by (simp add: dataLines_def namelessText_def namelessLine_def headers_def str_def trim_def chars)
  then have f: "importedFields namelessText = [namelessRecord]"
    by (simp add: importedFields_def List.map_filter_def i)
  have "arrays emptyApp (students emptyApp) = []"
    by (simp add: emptyApp_def)
  then have "map StudentInput.truncate
     (arrays (fst (handleCsvImport (\<lambda>k. []) (\<lambda>k. 0) namelessText emptyApp))
             (students (fst (handleCsvImport (\<lambda>k. []) (\<lambda>k. 0) namelessText emptyApp))))
   = [namelessRecord]"
    by (simp add: handleCsvImport_roster importedStudents_fields f)
  moreover have "name namelessRecord = str ''010''"
    by (simp add: namelessRecord_def)
  ultimately show ?thesis
    using t s i f by (simp add: str_def)
qed

section \<open>Claims about the sort and the roster\<close>

lemma compareStudents_le: "(compareStudents a b \<le> 0) = chainLe a b"
  by (cases "group a"; cases "group b")
     (auto simp: compareStudents_def chainLe_def localeCompare_def groupRank_def groupString_def)

lemma chainLe_total: "chainLe a b \<or> chainLe b a"
  by (cases "group a"; cases "group b") (auto simp: chainLe_def groupString_def)

lemma chainLe_trans: "chainLe a b \<Longrightarrow> chainLe b c \<Longrightarrow> chainLe a c"
  by (cases "group a"; cases "group b"; cases "group c") (auto simp: chainLe_def groupString_def)

lemma chainLe_same_key: "chainKey a = chainKey b \<Longrightarrow> chainLe a b"
  by (simp add: chainKey_def chainLe_def)

lemma mset_insertBy: "mset (insertBy cmp x ys) = add_mset x (mset ys)"
  by (induction ys) simp_all

lemma mset_sortBy: "mset (sortBy cmp xs) = mset xs"
  by (induction xs) (simp_all add: mset_insertBy)

lemma set_insertBy: "set (insertBy cmp x ys) = insert x (set ys)"
  by (induction ys) auto

lemma sorted_insertBy:
  "sorted_wrt chainLe ys \<Longrightarrow> sorted_wrt chainLe (insertBy compareStudents x ys)"
proof (induction ys)
  case Nil
  then show ?case by simp
next
  case (Cons y ys)
  show ?case
  proof (cases "compareStudents x y \<le> 0")
    case True
    then have xy: "chainLe x y" by (simp add: compareStudents_le)
    have "\<forall>z\<in>set ys. chainLe x z"
      using Cons.prems xy chainLe_trans by auto
    with xy Cons.prems show ?thesis using True by simp
  next
    case False
    then have "chainLe y x" using chainLe_total compareStudents_le by blast
    with Cons False show ?thesis by (auto simp: set_insertBy)
  qed
qed

lemma sorted_sortBy: "sorted_wrt chainLe (sortBy compareStudents xs)"
  by (induction xs) (simp_all add: sorted_insertBy)

lemma filter_key_insertBy:
  "filter (\<lambda>s. chainKey s = k) (insertBy compareStudents x ys)
   = (if chainKey x = k then x # filter (\<lambda>s. chainKey s = k) ys
      else filter (\<lambda>s. chainKey s = k) ys)"
proof (induction ys)
  case Nil
  then show ?case by simp
next
  case (Cons y ys)
  have "chainKey x = chainKey y \<Longrightarrow> compareStudents x y \<le> 0"
    by (simp add: compareStudents_le chainLe_same_key)
  with Cons show ?case by auto
qed

lemma filter_key_sortBy:
  "filter (\<lambda>s. chainKey s = k) (sortBy compareStudents xs) = filter (\<lambda>s. chainKey s = k) xs"
  by (induction xs) (simp_all add: filter_key_insertBy)

lemma exportToCsv_text:
  "snd (exportToCsv app) =
     (if listStudents app = [] then None
      else Some ([BOM] @ csvContent (map exportCells (sortBy compareStudents (listStudents app)))))"
  by (simp add: exportToCsv_def listStudents_def Let_def split: prod.splits)

text \<open>
  Claim C6. When there is something to export, the rows of the exported text are the
  records of the list in the order of the chain group, grade, class, number (each
  ascending): the rows are a rearrangement of the list, each row is at most the rows after
  it in that order, and the records with one and the same four keys come in the order they
  have in the list.
\<close>

theorem export_rows_sorted_stable:
  assumes "listStudents app \<noteq> []"
  shows "\<exists>rows. snd (exportToCsv app) = Some ([BOM] @ csvContent (map exportCells rows)) \<and>
                mset rows = mset (listStudents app) \<and>
                sorted_wrt chainLe rows \<and>
                (\<forall>k. filter (\<lambda>s. chainKey s = k) rows
                     = filter (\<lambda>s. chainKey s = k) (listStudents app))"
proof -
  let ?rows = "sortBy compareStudents (listStudents app)"
  have "snd (exportToCsv app) = Some ([BOM] @ csvContent (map exportCells ?rows))"
    using assms by (simp add: exportToCsv_text)
  moreover have "mset ?rows = mset (listStudents app)" by (rule mset_sortBy)
  moreover have "sorted_wrt chainLe ?rows" by (rule sorted_sortBy)
  moreover have "\<forall>k. filter (\<lambda>s. chainKey s = k) ?rows
                     = filter (\<lambda>s. chainKey s = k) (listStudents app)"
    by (simp add: filter_key_sortBy)
  ultimately show ?thesis by blast
qed

lemma listStudents_rosterApp: "listStudents rosterApp = [studentB, studentA]"
  by (simp add: listStudents_def filteredStudents_def rosterApp_def)

lemma compare_studentB_studentA: "\<not> compareStudents studentB studentA \<le> 0"
  by (simp add: compareStudents_def localeCompare_def groupRank_def studentA_def studentB_def)

lemma sortBy_rosterApp: "sortBy compareStudents [studentB, studentA] = [studentA, studentB]"
  by (simp add: compare_studentB_studentA)

theorem export_rows_sorted_stable_witness:
  "listStudents rosterApp \<noteq> [] \<and>
   snd (exportToCsv rosterApp) = Some ([BOM] @ csvContent (map exportCells [studentA, studentB])) \<and>
   (\<exists>rows. snd (exportToCsv rosterApp) = Some ([BOM] @ csvContent (map exportCells rows)) \<and>
      mset rows = mset [studentB, studentA] \<and> sorted_wrt chainLe rows)"
proof -
  have n: "listStudents rosterApp \<noteq> []" by (simp add: listStudents_rosterApp)
  have "snd (exportToCsv rosterApp) = Some ([BOM] @ csvContent (map exportCells [studentA, studentB]))"
    by (simp add: exportToCsv_text listStudents_rosterApp compare_studentB_studentA)
  then show ?thesis
    using n export_rows_sorted_stable [OF n] by (simp add: listStudents_rosterApp) blast
qed

text \<open>
  Claim C5 fails on the code. With the scope \<open>ALL\<close> the array that is sorted is the array
  of the state itself, and \<open>sort\<close> works in place: after the export the list shows the
  roster in the sorted order, not in the order the records were added.
\<close>

theorem export_all_reorders_roster:
  "listStudents rosterApp = [studentB, studentA] \<and>
   listStudents (fst (exportToCsv rosterApp)) = [studentA, studentB] \<and>
   listStudents (fst (exportToCsv rosterApp)) \<noteq> listStudents rosterApp"
proof -
  have "listStudents (fst (exportToCsv rosterApp)) = [studentA, studentB]"
    by (simp add: exportToCsv_def listStudents_def filteredStudents_def rosterApp_def Let_def
        compare_studentB_studentA)
  moreover have "studentA \<noteq> studentB" by (simp add: studentA_def studentB_def)
  ultimately show ?thesis by (simp add: listStudents_rosterApp)
qed

text \<open>With a group as scope the sorted array is the new one that \<open>filter\<close> made, and the
  roster of the state keeps its order.\<close>

lemma export_group_scope_keeps_roster:
  assumes "activeTab app = Tab g" and "students app < fresh app"
  shows "arrays (fst (exportToCsv app)) (students (fst (exportToCsv app)))
         = arrays app (students app) \<and>
         listStudents (fst (exportToCsv app)) = listStudents app"
  using assms
  by (simp add: exportToCsv_def listStudents_def filteredStudents_def Let_def)

section \<open>Export followed by import\<close>

lemma dquote_not_space: "\<not> isSpace dquote"
  by (simp add: chars)

lemma comma_not_space: "\<not> isSpace comma"
  by (simp add: chars)

lemma lookahead_comma: "lookahead (comma # rest)"
  by (simp add: lookahead_def comma_not_space)

lemma lookahead_Nil: "lookahead []"
  by (simp add: lookahead_def)

lemma scanFrom_skip: "scanFrom (length xs) (xs @ ys) = scanFrom 0 ys"
proof (induction xs)
  case Nil
  then show ?case by simp
next
  case (Cons x xs)
  then show ?case by simp
qed

lemma takeWhile_plain_field:
  "list_all plainChar f \<Longrightarrow> takeWhile plainChar (f @ comma # rest) = f"
  by (induction f) (simp_all add: plainChar_def)

lemma takeWhile_plain_last: "list_all plainChar f \<Longrightarrow> takeWhile plainChar f = f"
  by (induction f) simp_all

lemma backtrack_full:
  "s \<noteq> [] \<Longrightarrow> lookahead rest \<Longrightarrow> backtrack (length s) (s @ rest) = Some s"
  by (cases s) simp_all

lemma matchAt_plain_field:
  assumes "plainToken f"
  shows "matchAt (f @ comma # rest) = Some f"
proof -
  from assms obtain c cs where f: "f = c # cs" and c: "c \<noteq> dquote"
    by (cases f) (auto simp: plainToken_def plainChar_def)
  have "plainRun (f @ comma # rest) = Some f"
    using assms
    by (simp add: plainRun_def plainToken_def takeWhile_plain_field backtrack_full lookahead_comma)
  then show ?thesis
    using f c by (simp add: matchAt_def)
qed

lemma matchAt_comma: "matchAt (comma # rest) = None"
  by (simp add: matchAt_def plainRun_def plainChar_def chars)

lemma scanFrom_plain_field:
  assumes "plainToken f"
  shows "scanFrom 0 (f @ comma # rest) = f # scanFrom 0 rest"
proof -
  from assms obtain c cs where f: "f = c # cs"
    by (cases f) (auto simp: plainToken_def)
  have "scanFrom 0 (f @ comma # rest) = f # scanFrom (length f - 1) (cs @ comma # rest)"
    using matchAt_plain_field [OF assms, of rest] f by simp
  also have "scanFrom (length f - 1) (cs @ comma # rest) = scanFrom 0 (comma # rest)"
    using scanFrom_skip [of cs "comma # rest"] f by simp
  also have "scanFrom 0 (comma # rest) = scanFrom 0 rest"
    by (simp add: matchAt_comma)
  finally show ?thesis .
qed

lemma lookahead_escaped: "lookahead (escapeQuotes r @ [dquote]) = commaNext r"
proof (induction r)
  case Nil
  then show ?case
    by (simp add: lookahead_def commaNext_def escapeQuotes_def dquote_not_space) (simp add: chars)
next
  case (Cons c r)
  show ?case
  proof (cases "c = dquote")
    case True
    then show ?thesis
      by (simp add: lookahead_def commaNext_def escapeQuotes_def dquote_not_space)
  next
    case False
    with Cons show ?thesis
      by (simp add: lookahead_def commaNext_def escapeQuotes_def)
  qed
qed

lemma lookahead_dquote: "\<not> lookahead (dquote # rest)"
  by (simp add: lookahead_def dquote_not_space) (simp add: chars)

lemma lazyQuoted_escaped:
  "quotableRemarks r \<Longrightarrow>
     lazyQuoted (escapeQuotes r @ [dquote]) = Some (escapeQuotes r @ [dquote])"
proof (induction r)
  case Nil
  then show ?case by (simp add: escapeQuotes_def lookahead_Nil)
next
  case (Cons c r)
  then have ih: "lazyQuoted (escapeQuotes r @ [dquote]) = Some (escapeQuotes r @ [dquote])"
    and lt: "\<not> isLineTerminator c"
    by (simp_all add: quotableRemarks_def)
  show ?case
  proof (cases "c = dquote")
    case True
    have e: "escapeQuotes (dquote # r) = dquote # dquote # escapeQuotes r"
      by (simp add: escapeQuotes_def)
    have "\<not> commaNext r"
      using Cons.prems True by (simp add: quotableRemarks_def)
    then have "\<not> lookahead (escapeQuotes r @ [dquote])"
      by (simp add: lookahead_escaped)
    then show ?thesis
      using ih lt unfolding True e by (simp add: lookahead_dquote)
  next
    case False
    then show ?thesis
      using ih lt by (simp add: escapeQuotes_def)
  qed
qed

lemma matchAt_quoted:
  assumes "quotableRemarks r"
  shows "matchAt (dquote # escapeQuotes r @ [dquote]) = Some (dquote # escapeQuotes r @ [dquote])"
  using lazyQuoted_escaped [OF assms] by (simp add: matchAt_def)

lemma scanFrom_quoted:
  assumes "quotableRemarks r"
  shows "scanFrom 0 (dquote # escapeQuotes r @ [dquote]) = [dquote # escapeQuotes r @ [dquote]]"
proof -
  have "scanFrom 0 (dquote # escapeQuotes r @ [dquote])
        = (dquote # escapeQuotes r @ [dquote])
          # scanFrom (length (escapeQuotes r @ [dquote])) ((escapeQuotes r @ [dquote]) @ [])"
    using matchAt_quoted [OF assms] by simp
  also have "scanFrom (length (escapeQuotes r @ [dquote])) ((escapeQuotes r @ [dquote]) @ [])
             = scanFrom 0 []"
    by (rule scanFrom_skip)
  finally show ?thesis by simp
qed

lemma stripQuotes_no_quote: "dquote \<notin> set f \<Longrightarrow> stripQuotes f = f"
proof (cases f)
  case Nil
  then show ?thesis by (simp add: stripQuotes_def)
next
  case (Cons c cs)
  assume "dquote \<notin> set f"
  moreover from this Cons have "last f \<noteq> dquote" by (metis last_in_set list.distinct(1))
  ultimately show ?thesis using Cons by (auto simp: stripQuotes_def)
qed

lemma collapseQuotes_Cons: "c \<noteq> dquote \<Longrightarrow> collapseQuotes (c # xs) = c # collapseQuotes xs"
  by (cases xs) simp_all

lemma collapseQuotes_no_quote: "dquote \<notin> set f \<Longrightarrow> collapseQuotes f = f"
  by (induction f) (simp_all add: collapseQuotes_Cons)

lemma dropWhile_hd: "f = [] \<or> \<not> P (hd f) \<Longrightarrow> dropWhile P f = f"
  by (cases f) auto

lemma trim_id: "f = [] \<or> (\<not> isSpace (hd f) \<and> \<not> isSpace (last f)) \<Longrightarrow> trim f = f"
proof -
  assume a: "f = [] \<or> (\<not> isSpace (hd f) \<and> \<not> isSpace (last f))"
  then have "dropWhile isSpace f = f" by (auto simp: dropWhile_hd)
  moreover have "dropWhile isSpace (rev f) = rev f"
    using a by (cases "f = []") (auto simp: dropWhile_hd hd_rev)
  ultimately show ?thesis by (simp add: trim_def)
qed

lemma plainToken_chars:
  "plainToken f \<Longrightarrow> dquote \<notin> set f \<and> \<not> isSpace (hd f) \<and> \<not> isSpace (last f)"
  by (cases f) (auto simp: plainToken_def plainChar_def list_all_iff)

lemma clean_plainToken: "plainToken f \<Longrightarrow> clean (Some f) = f"
  using plainToken_chars [of f]
  by (simp add: clean_def stripQuotes_no_quote collapseQuotes_no_quote trim_id)

lemma stripQuotes_quoted: "stripQuotes (dquote # x @ [dquote]) = x"
  by (simp add: stripQuotes_def)

lemma collapseQuotes_escaped: "collapseQuotes (escapeQuotes r) = r"
proof (induction r)
  case Nil
  then show ?case by (simp add: escapeQuotes_def)
next
  case (Cons c r)
  then have ih: "collapseQuotes (escapeQuotes r) = r" .
  show ?case
  proof (cases "c = dquote")
    case True
    have "escapeQuotes (dquote # r) = dquote # dquote # escapeQuotes r"
      by (simp add: escapeQuotes_def)
    then show ?thesis using ih True by simp
  next
    case False
    then have "escapeQuotes (c # r) = c # escapeQuotes r"
      by (simp add: escapeQuotes_def)
    then show ?thesis using ih False by (simp add: collapseQuotes_Cons)
  qed
qed

lemma clean_quoted:
  "trim r = r \<Longrightarrow> clean (Some (dquote # escapeQuotes r @ [dquote])) = r"
  by (simp add: clean_def stripQuotes_quoted collapseQuotes_escaped)

lemma digitVal_10: "digitVal 10 c = (if 48 \<le> c \<and> c \<le> 57 then Some (c - 48) else None)"
  by (auto simp: digitVal_def Let_def)

lemma digitsOf_nonempty: "digitsOf n \<noteq> []"
  by (subst digitsOf.simps) simp

lemma digitsOf_digits: "list_all (\<lambda>c. 48 \<le> c \<and> c \<le> 57) (digitsOf n)"
proof (induction n rule: digitsOf.induct)
  case (1 n)
  show ?case
  proof (cases "n < 10")
    case True
    then show ?thesis by (subst digitsOf.simps) simp
  next
    case False
    have "n mod 10 < 10" by simp
    then have "48 + n mod 10 \<le> 57" by linarith
    with False 1 show ?thesis by (subst digitsOf.simps) simp
  qed
qed

lemma digitsOf_value:
  "foldl (\<lambda>acc c. acc * 10 + the (digitVal 10 c)) 0 (digitsOf n) = n"
proof (induction n rule: digitsOf.induct)
  case (1 n)
  show ?case
  proof (cases "n < 10")
    case True
    then show ?thesis by (subst digitsOf.simps) (simp add: digitVal_10)
  next
    case False
    have "n mod 10 < 10" by simp
    then have "48 + n mod 10 \<le> 57" by linarith
    with False 1 show ?thesis by (subst digitsOf.simps) (simp add: digitVal_10)
  qed
qed

lemma takeWhile_all: "list_all P xs \<Longrightarrow> takeWhile P xs = xs"
  by (induction xs) simp_all

lemma parseInt_digits:
  assumes "ds \<noteq> []" and "list_all (\<lambda>c. 48 \<le> c \<and> c \<le> 57) ds"
  shows "parseInt ds = Some (int (foldl (\<lambda>acc c. acc * 10 + the (digitVal 10 c)) 0 ds))"
    and "parseInt (minus_sign # ds)
         = Some (- int (foldl (\<lambda>acc c. acc * 10 + the (digitVal 10 c)) 0 ds))"
proof -
  from assms obtain d ds' where ds: "ds = d # ds'" and d: "48 \<le> d" "d \<le> 57"
    by (cases ds) auto
  have sp: "\<not> isSpace d" using d by (auto simp: chars)
  have hex: "(case ds of a # b # _ \<Rightarrow> a = 48 \<and> (b = 120 \<or> b = 88) | _ \<Rightarrow> False) = False"
    using assms(2) ds by (cases ds') auto
  have tw: "takeWhile (\<lambda>c. digitVal 10 c \<noteq> None) ds = ds"
    using assms(2) by (intro takeWhile_all) (simp add: digitVal_10 list_all_iff)
  have sg: "d \<noteq> plus_sign" "d \<noteq> minus_sign" using d by (auto simp: chars)
  have S: "dropWhile isSpace ds = ds" using sp ds by simp
  show "parseInt ds = Some (int (foldl (\<lambda>acc c. acc * 10 + the (digitVal 10 c)) 0 ds))"
    unfolding parseInt_def S Let_def
    using sg hex tw assms(1) by (simp add: ds)
  have S': "dropWhile isSpace (minus_sign # ds) = minus_sign # ds" by (simp add: chars)
  show "parseInt (minus_sign # ds)
         = Some (- int (foldl (\<lambda>acc c. acc * 10 + the (digitVal 10 c)) 0 ds))"
    unfolding parseInt_def S' Let_def
    using hex tw assms(1) by (simp add: ds)
qed

lemma parseInt_numberToString: "parseInt (numberToString n) = Some n"
proof (cases "n < 0")
  case True
  then show ?thesis
    by (simp add: numberToString_def parseInt_digits(2) digitsOf_nonempty digitsOf_digits
        digitsOf_value)
next
  case False
  then show ?thesis
    by (simp add: numberToString_def parseInt_digits(1) digitsOf_nonempty digitsOf_digits
        digitsOf_value)
qed

lemma plainChar_digit: "48 \<le> c \<and> c \<le> 57 \<Longrightarrow> plainChar c"
  by (auto simp: chars)

lemma plainToken_numberToString: "plainToken (numberToString n)"
proof -
  have "list_all plainChar (digitsOf k)" for k
    using digitsOf_digits [of k] by (auto simp: list_all_iff plainChar_digit)
  moreover have "plainChar minus_sign" by (simp add: chars)
  ultimately show ?thesis
    by (simp add: plainToken_def numberToString_def digitsOf_nonempty)
qed

lemma plainToken_groupString: "plainToken (groupString g)"
  by (cases g) (simp_all add: plainToken_def groupString_def chars)

lemma group_roundtrip:
  "asClassGroup (groupOrA (toUpperCase (groupString g))) = Some g"
  by (cases g) (simp_all add: groupString_def toUpperCase_def upperChar_def groupOrA_def
      asClassGroup_def)

lemma tokenize_exportLine:
  assumes "roundtripSafe s"
  shows "tokenize (exportLine s)
         = [numberToString (grade s), numberToString (schoolClass s), numberToString (number s),
            groupString (group s), name s, phone s,
            dquote # escapeQuotes (remarks s) @ [dquote]]"
proof -
  have n: "plainToken (name s)" and p: "plainToken (phone s)"
    and q: "quotableRemarks (remarks s)"
    using assms by (simp_all add: roundtripSafe_def)
  have "matchAll (exportLine s)
        = [numberToString (grade s), numberToString (schoolClass s), numberToString (number s),
           groupString (group s), name s, phone s,
           dquote # escapeQuotes (remarks s) @ [dquote]]"
    by (simp add: matchAll_def exportLine_def exportCells_def orElse_def
        scanFrom_plain_field plainToken_numberToString plainToken_groupString n p
        scanFrom_quoted [OF q] del: scanFrom.simps)
  then show ?thesis by (simp add: tokenize_def)
qed

lemma importRow_exportLine:
  assumes "roundtripSafe s"
  shows "importRow (exportLine s) = Some (StudentInput.truncate s)"
proof -
  have n: "plainToken (name s)" and p: "plainToken (phone s)"
    and t: "trim (remarks s) = remarks s"
    and z: "grade s \<noteq> 0" "schoolClass s \<noteq> 0" "number s \<noteq> 0"
    using assms by (simp_all add: roundtripSafe_def)
  have ne: "name s \<noteq> []" using n by (simp add: plainToken_def)
  have num: "orOne (parseInt (clean (Some (numberToString k)))) = k" if "k \<noteq> 0" for k
    using that
    by (simp add: clean_plainToken plainToken_numberToString parseInt_numberToString orOne_def)
  have grp: "the (asClassGroup (groupOrA (toUpperCase (clean (Some (groupString (group s)))))))
             = group s"
    by (simp add: clean_plainToken plainToken_groupString group_roundtrip)
  show ?thesis
    unfolding importRow_def tokenize_exportLine [OF assms] Let_def
    using ne
    by (simp add: num z grp clean_plainToken n p clean_quoted t orElse_def
        StudentInput.truncate_def)
qed

lemma splitLines_line:
  "LF \<notin> set l \<Longrightarrow> splitLines l = [l]"
  by (induction l) (auto split: list.splits)

lemma splitLines_append:
  "LF \<notin> set l \<Longrightarrow> l = [] \<or> last l \<noteq> CR \<Longrightarrow> splitLines (l @ LF # rest) = l # splitLines rest"
proof (induction l)
  case Nil
  then show ?case by simp
next
  case (Cons c l)
  then show ?case by (cases l) (auto split: list.splits)
qed

lemma splitLines_join:
  "ls \<noteq> [] \<Longrightarrow> \<forall>l\<in>set ls. LF \<notin> set l \<and> (l = [] \<or> last l \<noteq> CR) \<Longrightarrow>
     splitLines (join [LF] ls) = ls"
proof (induction "[LF]" ls rule: join.induct)
  case 1
  then show ?case by simp
next
  case (2 x)
  then show ?case by (simp add: splitLines_line)
next
  case (3 x y ys)
  then show ?case by (simp add: splitLines_append)
qed

lemma trim_nonblank: "l \<noteq> [] \<Longrightarrow> \<not> isSpace (hd l) \<Longrightarrow> trim l \<noteq> []"
  by (cases l) (auto simp: trim_def)

lemma map_filter_all:
  "\<forall>x\<in>set xs. f x = Some (g x) \<Longrightarrow> List.map_filter f xs = map g xs"
  by (induction xs) (simp_all add: List.map_filter_def)

lemma join_BOM: "[BOM] @ join [LF] (h # ls) = join [LF] ((BOM # h) # ls)"
  by (cases ls) simp_all

lemma header_line:
  "LF \<notin> set (BOM # join [comma] headers) \<and> last (BOM # join [comma] headers) \<noteq> CR"
  by (simp add: headers_def chars)

lemma dataLines_csv:
  assumes "\<forall>l\<in>set ls. LF \<notin> set l \<and> l \<noteq> [] \<and> last l \<noteq> CR \<and> \<not> isSpace (hd l)"
  shows "dataLines ([BOM] @ join [LF] (join [comma] headers # ls)) = ls"
proof -
  have "\<forall>l\<in>set ((BOM # join [comma] headers) # ls). LF \<notin> set l \<and> (l = [] \<or> last l \<noteq> CR)"
    using assms header_line by auto
  then have "splitLines (join [LF] ((BOM # join [comma] headers) # ls))
             = (BOM # join [comma] headers) # ls"
    by (intro splitLines_join) simp_all
  moreover have "filter (\<lambda>line. trim line \<noteq> []) ls = ls"
    using assms by (simp add: trim_nonblank)
  ultimately show ?thesis
    unfolding dataLines_def join_BOM by simp
qed

lemma csvContent_lines:
  "csvContent (map exportCells rows) = join [LF] (join [comma] headers # map exportLine rows)"
  by (simp add: csvContent_def exportLine_def [abs_def] comp_def)

lemma plainToken_no_LF: "plainToken f \<Longrightarrow> LF \<notin> set f"
  by (auto simp: plainToken_def list_all_iff chars)

lemma escapeQuotes_set: "set (escapeQuotes r) \<subseteq> insert dquote (set r)"
  by (induction r) (auto simp: escapeQuotes_def)

lemma quotableRemarks_no_LF: "quotableRemarks r \<Longrightarrow> LF \<notin> set (escapeQuotes r)"
proof -
  assume "quotableRemarks r"
  then have "LF \<notin> set r"
    by (auto simp: quotableRemarks_def list_ex_iff isLineTerminator_def LF_def)
  moreover have "LF \<noteq> dquote" by (simp add: chars)
  ultimately show ?thesis using escapeQuotes_set [of r] by auto
qed

lemma exportLine_shape:
  assumes "roundtripSafe s"
  shows "LF \<notin> set (exportLine s) \<and> exportLine s \<noteq> [] \<and> last (exportLine s) \<noteq> CR \<and>
         \<not> isSpace (hd (exportLine s))"
proof -
  have n: "plainToken (name s)" and p: "plainToken (phone s)"
    and q: "quotableRemarks (remarks s)"
    using assms by (simp_all add: roundtripSafe_def)
  have e: "exportLine s
           = numberToString (grade s) @ comma # numberToString (schoolClass s) @ comma #
             numberToString (number s) @ comma # groupString (group s) @ comma #
             name s @ comma # phone s @ comma # dquote # escapeQuotes (remarks s) @ [dquote]"
    by (simp add: exportLine_def exportCells_def orElse_def)
  have c: "LF \<noteq> comma" "LF \<noteq> dquote" "dquote \<noteq> CR" by (simp_all add: chars)
  have g: "numberToString (grade s) \<noteq> [] \<and> \<not> isSpace (hd (numberToString (grade s)))"
    using plainToken_chars [OF plainToken_numberToString, of "grade s"]
      plainToken_numberToString [of "grade s"] by (simp add: plainToken_def)
  have "LF \<notin> set (exportLine s)"
    unfolding e
    using c plainToken_no_LF [OF plainToken_numberToString] plainToken_no_LF [OF plainToken_groupString]
      plainToken_no_LF [OF n] plainToken_no_LF [OF p] quotableRemarks_no_LF [OF q]
    by simp
  moreover have "last (exportLine s) = dquote" unfolding e by simp
  moreover have "hd (exportLine s) = hd (numberToString (grade s))"
    unfolding e using g by simp
  moreover have "exportLine s \<noteq> []" unfolding e using g by simp
  ultimately show ?thesis using g c by simp
qed

lemma set_sortBy: "set (sortBy cmp xs) = set xs"
  using mset_sortBy [of cmp xs] by (metis set_mset_mset)

lemma importedFields_export:
  assumes "\<forall>s\<in>set rows. roundtripSafe s"
  shows "importedFields ([BOM] @ csvContent (map exportCells rows))
         = map StudentInput.truncate rows"
proof -
  have "dataLines ([BOM] @ csvContent (map exportCells rows)) = map exportLine rows"
    unfolding csvContent_lines
    using assms by (intro dataLines_csv) (auto simp: exportLine_shape)
  moreover have "List.map_filter importRow (map exportLine rows)
                 = map (StudentInput.truncate \<circ> (\<lambda>s. s)) rows"
    using assms
    by (induction rows) (simp_all add: List.map_filter_def importRow_exportLine)
  ultimately show ?thesis by (simp add: importedFields_def)
qed

text \<open>
  Claim C1, amended. When every record of the list that is exported has a grade, class and
  number that are safe integers other than zero, a name and a phone that are not empty and
  free of quotes, commas and white space, and remarks without line terminator, without
  white space at either end and without a quote that is followed (after white space) by a
  comma, then the export produces a text, and importing that text gives records whose
  seven fields are, as a multiset, the seven fields of the exported records.
\<close>

theorem export_import_roundtrip:
  assumes "listStudents app \<noteq> []"
    and "\<forall>s\<in>set (listStudents app). roundtripSafe s"
  shows "\<exists>text. snd (exportToCsv app) = Some text \<and>
           mset (importedFields text) = mset (map StudentInput.truncate (listStudents app))"
proof -
  let ?rows = "sortBy compareStudents (listStudents app)"
  have t: "snd (exportToCsv app) = Some ([BOM] @ csvContent (map exportCells ?rows))"
    using assms(1) by (simp add: exportToCsv_text)
  have "\<forall>s\<in>set ?rows. roundtripSafe s"
    using assms(2) by (simp add: set_sortBy)
  then have "importedFields ([BOM] @ csvContent (map exportCells ?rows))
             = map StudentInput.truncate ?rows"
    by (rule importedFields_export)
  moreover have "mset (map StudentInput.truncate ?rows)
                 = mset (map StudentInput.truncate (listStudents app))"
    by (simp only: mset_map mset_sortBy)
  ultimately show ?thesis using t by simp
qed

lemma roundtripSafe_studentA: "roundtripSafe studentA"
  by (simp add: roundtripSafe_def safeInteger_def studentA_def plainToken_def quotableRemarks_def trim_def
      str_def chars)

lemma roundtripSafe_studentB: "roundtripSafe studentB"
  by (simp add: roundtripSafe_def safeInteger_def studentB_def plainToken_def quotableRemarks_def trim_def
      str_def chars)

theorem export_import_roundtrip_witness:
  "listStudents rosterApp \<noteq> [] \<and> roundtripSafe studentB \<and> roundtripSafe studentA \<and>
   (\<exists>text. snd (exportToCsv rosterApp) = Some text \<and>
      mset (importedFields text) = mset (map StudentInput.truncate [studentB, studentA]))"
proof -
  have n: "listStudents rosterApp \<noteq> []" by (simp add: listStudents_rosterApp)
  have a: "\<forall>s\<in>set (listStudents rosterApp). roundtripSafe s"
    by (simp add: listStudents_rosterApp roundtripSafe_studentA roundtripSafe_studentB)
  show ?thesis
    using n export_import_roundtrip [OF n a]
    by (simp add: listStudents_rosterApp roundtripSafe_studentA roundtripSafe_studentB)
qed

lemma digitsOf_small: "n < 10 \<Longrightarrow> digitsOf n = [48 + n]"
  by (subst digitsOf.simps) simp

lemma exportLine_studentComma: "exportLine studentComma = commaLine"
  by (simp add: exportLine_def exportCells_def studentComma_def numberToString_def
      digitsOf_small groupString_def escapeQuotes_def orElse_def commaLine_def str_def chars)

lemma tokenize_commaLine:
  "tokenize commaLine = [[49], [49], [49], [65], [75, 105, 109], [76, 101, 101], [48, 49, 48], [34, 34]]"
  by (simp add: commaLine_def str_def tokenizer chars)

lemma importRow_commaLine: "importRow commaLine = Some commaReimported"
  by (simp add: importRow_def Let_def tokenize_commaLine commaReimported_def str_def cleaning chars)

lemma listStudents_commaApp: "listStudents commaApp = [studentComma]"
  by (simp add: listStudents_def filteredStudents_def commaApp_def)

lemma commaLine_shape:
  "LF \<notin> set commaLine \<and> commaLine \<noteq> [] \<and> last commaLine \<noteq> CR \<and> \<not> isSpace (hd commaLine)"
  by (simp add: commaLine_def str_def chars)

text \<open>
  Claim C1, as stated, fails: the exporter writes a name as it is, so a comma in a name
  makes one more column, and the re-imported record has other fields than the exported one.
\<close>

theorem roundtrip_fails_on_comma_in_name:
  "listStudents commaApp = [studentComma] \<and>
   snd (exportToCsv commaApp) = Some ([BOM] @ join [LF] [join [comma] headers, commaLine]) \<and>
   importedFields ([BOM] @ join [LF] [join [comma] headers, commaLine]) = [commaReimported] \<and>
   mset [commaReimported] \<noteq> mset (map StudentInput.truncate (listStudents commaApp))"
proof -
  have "csvContent (map exportCells [studentComma])
        = join [LF] (join [comma] headers # map exportLine [studentComma])"
    by (rule csvContent_lines)
  then have t: "snd (exportToCsv commaApp) = Some ([BOM] @ join [LF] [join [comma] headers, commaLine])"
    by (simp add: exportToCsv_text listStudents_commaApp exportLine_studentComma del: join.simps)
  have "dataLines ([BOM] @ join [LF] (join [comma] headers # [commaLine])) = [commaLine]"
    by (rule dataLines_csv) (simp add: commaLine_shape)
  then have i: "importedFields ([BOM] @ join [LF] [join [comma] headers, commaLine]) = [commaReimported]"
    by (simp add: importedFields_def List.map_filter_def importRow_commaLine del: join.simps)
  have "commaReimported \<noteq> StudentInput.truncate studentComma"
    by (simp add: commaReimported_def studentComma_def StudentInput.truncate_def str_def)
  then show ?thesis
    using t i by (simp add: listStudents_commaApp del: join.simps)
qed

text \<open>
  Claim C3, as stated, fails: a name with a comma is written as it is, not between quotes.
\<close>

theorem name_with_comma_is_not_quoted:
  "comma \<in> set (name studentComma) \<and>
   nth_opt (exportCells studentComma) 4 = Some (str ''Kim,Lee'') \<and>
   rfc4180Field (name studentComma) = str ''\"Kim,Lee\"'' \<and>
   nth_opt (exportCells studentComma) 4 \<noteq> Some (rfc4180Field (name studentComma))"
  by (simp add: exportCells_def studentComma_def rfc4180Field_def escapeQuotes_def str_def chars)

lemma exportLine_studentHi: "exportLine studentHi = hiLine"
  by (simp add: exportLine_def exportCells_def studentHi_def numberToString_def
      digitsOf_small groupString_def escapeQuotes_def orElse_def hiLine_def str_def chars)

lemma listStudents_hiApp: "listStudents hiApp = [studentHi]"
  by (simp add: listStudents_def filteredStudents_def hiApp_def)

lemma roundtripSafe_studentHi: "roundtripSafe studentHi"
  by (simp add: roundtripSafe_def safeInteger_def studentHi_def plainToken_def quotableRemarks_def
      commaNext_def trim_def str_def chars)

text \<open>
  Claim C3, amended. For every record, whatever its fields contain, the exported row has
  seven cells: the three numbers as they are printed, then the group, the name and the
  phone as they are (also with a comma, a newline or a quote in them), then the remarks
  between two quotes with their quotes doubled. The row is these cells joined by commas,
  and the exported text is the header and one such row per record. When the record is read
  back as it was written (safe numbers other than zero, name and phone not empty and free
  of quotes, commas and white space, remarks with no line terminator, no white space at
  either end and no quote followed after white space by a comma), the re-imported remarks
  are the original string; the remarks \<open>He said, "hi"\<close> are such, and are written as
  \<open>"He said, ""hi"""\<close>.
\<close>

theorem remarks_are_quoted_and_reimported:
  "length (exportCells s) = 7 \<and>
   nth_opt (exportCells s) 3 = Some (groupString (group s)) \<and>
   nth_opt (exportCells s) 4 = Some (name s) \<and>
   nth_opt (exportCells s) 5 = Some (phone s) \<and>
   nth_opt (exportCells s) 6 = Some ([dquote] @ escapeQuotes (remarks s) @ [dquote]) \<and>
   exportLine s = join [comma] (exportCells s) \<and>
   (listStudents app \<noteq> [] \<longrightarrow>
      snd (exportToCsv app)
      = Some ([BOM] @ join [LF] (join [comma] headers
                # map exportLine (sortBy compareStudents (listStudents app))))) \<and>
   (roundtripSafe s \<longrightarrow> map_option remarks (importRow (exportLine s)) = Some (remarks s))"
proof -
  have c: "length (exportCells s) = 7 \<and>
   nth_opt (exportCells s) 3 = Some (groupString (group s)) \<and>
   nth_opt (exportCells s) 4 = Some (name s) \<and>
   nth_opt (exportCells s) 5 = Some (phone s) \<and>
   nth_opt (exportCells s) 6 = Some ([dquote] @ escapeQuotes (remarks s) @ [dquote])"
    by (simp add: exportCells_def orElse_def)
  have t: "listStudents app \<noteq> [] \<longrightarrow>
      snd (exportToCsv app)
      = Some ([BOM] @ join [LF] (join [comma] headers
                # map exportLine (sortBy compareStudents (listStudents app))))"
    by (simp only: exportToCsv_text csvContent_lines) simp
  have r: "roundtripSafe s \<longrightarrow> map_option remarks (importRow (exportLine s)) = Some (remarks s)"
    using importRow_exportLine [of s] by (simp add: StudentInput.truncate_def)
  have l: "exportLine s = join [comma] (exportCells s)"
    by (rule exportLine_def)
  show ?thesis
    using c t r l by blast
qed

theorem remarks_are_quoted_and_reimported_witness:
  "roundtripSafe studentHi \<and> listStudents hiApp \<noteq> [] \<and>
   remarks studentHi = str ''He said, \"hi\"'' \<and>
   nth_opt (exportCells studentHi) 6 = Some (str ''\"He said, \"\"hi\"\"\"'') \<and>
   exportLine studentHi = hiLine \<and>
   snd (exportToCsv hiApp) = Some ([BOM] @ join [LF] [join [comma] headers, hiLine]) \<and>
   map_option remarks (importRow hiLine) = Some (str ''He said, \"hi\"'')"
proof -
  have r: "remarks studentHi = str ''He said, \"hi\"''"
    by (simp add: studentHi_def)
  have e: "[dquote] @ escapeQuotes (remarks studentHi) @ [dquote] = str ''\"He said, \"\"hi\"\"\"''"
    by (simp add: studentHi_def escapeQuotes_def str_def chars)
  have n: "listStudents hiApp \<noteq> []"
    by (simp add: listStudents_hiApp)
  show ?thesis
    using remarks_are_quoted_and_reimported [of studentHi hiApp] e n
    by (simp add: roundtripSafe_studentHi r listStudents_hiApp exportLine_studentHi
        del: join.simps)
qed

text \<open>
  Claim C2 fails on the code. The pattern has no alternative for an empty field: the line
  \<open>1,2,3,A,Kim,,memo\<close> has seven fields, the tokenizer gives six tokens, the remarks come
  to stand in the phone column, and the plain split, which keeps the empty field, is not
  taken because the pattern matched.
\<close>

theorem tokenizer_drops_empty_field:
  "tokenize emptyPhoneLine = [str ''1'', str ''2'', str ''3'', str ''A'', str ''Kim'', str ''memo''] \<and>
   splitComma emptyPhoneLine
     = [str ''1'', str ''2'', str ''3'', str ''A'', str ''Kim'', [], str ''memo''] \<and>
   map_option phone (importRow emptyPhoneLine) = Some (str ''memo'') \<and>
   map_option remarks (importRow emptyPhoneLine) = Some []"
proof -
  have t: "tokenize emptyPhoneLine = [[49], [50], [51], [65], [75, 105, 109], [109, 101, 109, 111]]"
    by (simp add: emptyPhoneLine_def str_def tokenizer chars)
  have s: "splitComma emptyPhoneLine = [[49], [50], [51], [65], [75, 105, 109], [], [109, 101, 109, 111]]"
    by (simp add: emptyPhoneLine_def str_def chars)
  have "importRow emptyPhoneLine
        = Some \<lparr> grade = 1, schoolClass = 2, number = 3, group = A, name = [75, 105, 109],
                 phone = [109, 101, 109, 111], remarks = [] \<rparr>"
    by (simp add: importRow_def Let_def t cleaning chars)
  then show ?thesis
    using t s by (simp add: str_def)
qed

end
